theory Spec2Isabelle
  imports Main "HOL-Library.Multiset" "HOL-Library.Char_ord" "HOL-Library.List_Lexorder"
begin

section \<open>Routing module of the almanac server (src/app/routes.py)\<close>

text \<open>
  The module registers its views inside \<^verbatim>\<open>configure(app, talisman)\<close>. Each view is
  embedded as a HOL function of the same name. What a view reads from Flask's request
  object is a field of the record \<open>request\<close>; what it hands to Flask (a rendered
  template, a redirect) is a value of the datatype \<open>view\<close>; exceptions are values of
  the datatype \<open>exn\<close>, returned on the left of a sum.
\<close>

subsection \<open>Responses and the after-request hook \<^verbatim>\<open>add_header\<close>\<close>

text \<open>
  Werkzeug's \<^verbatim>\<open>response.cache_control\<close> is a structured view of the
  \<^verbatim>\<open>Cache-Control\<close> header: assigning a directive writes the header back. The header
  is therefore kept as an optional record of directives: \<open>None\<close> when the response
  carries no \<^verbatim>\<open>Cache-Control\<close> header. Directives that \<^verbatim>\<open>add_header\<close> never
  names (\<^verbatim>\<open>private\<close>, \<^verbatim>\<open>s-maxage\<close>, ...) are kept verbatim in \<open>other_directives\<close>.
\<close>

record cache_control =
  no_store :: bool
  no_cache :: bool
  max_age :: "int option"
  public :: bool
  other_directives :: "string list"

record response =
  status_code :: int
  headers :: "(string \<times> string) list"
  cache_control_header :: "cache_control option"

definition empty_cache_control :: cache_control where
  "empty_cache_control =
     \<lparr>no_store = False, no_cache = False, max_age = None, public = False,
      other_directives = []\<rparr>"

text \<open>
  \<^verbatim>\<open>response.cache_control.d = v\<close>: the directives are read from the header (none
  when the header is absent), the directive is set and the header is written.
\<close>

definition set_cache_control ::
    "(cache_control \<Rightarrow> cache_control) \<Rightarrow> response \<Rightarrow> response" where
  "set_cache_control f r =
     r\<lparr>cache_control_header :=
         Some (f (case cache_control_header r of
                    None \<Rightarrow> empty_cache_control
                  | Some cc \<Rightarrow> cc))\<rparr>"

text \<open>
  \<^verbatim>\<open>
  if 'Cache-Control' not in response.headers:
      if response.status_code != 200 and response.status_code != 304:
          response.cache_control.no_store = True
          response.cache_control.no_cache = True
          response.cache_control.max_age = 0
      if response.status_code == 200 or response.status_code == 304:
          response.cache_control.public = True
          response.cache_control.max_age = 10800
  return response
  \<close>
  The two inner tests are two separate statements in the source, and stay so here.
\<close>

definition add_header :: "response \<Rightarrow> response" where
  "add_header response =
     (if cache_control_header response = None then
        (let r1 = (if status_code response \<noteq> 200 \<and> status_code response \<noteq> 304
                   then set_cache_control (\<lambda>cc. cc\<lparr>max_age := Some 0\<rparr>)
                          (set_cache_control (\<lambda>cc. cc\<lparr>no_cache := True\<rparr>)
                            (set_cache_control (\<lambda>cc. cc\<lparr>no_store := True\<rparr>) response))
                   else response);
             r2 = (if status_code r1 = 200 \<or> status_code r1 = 304
                   then set_cache_control (\<lambda>cc. cc\<lparr>max_age := Some 10800\<rparr>)
                          (set_cache_control (\<lambda>cc. cc\<lparr>public := True\<rparr>) r1)
                   else r1)
         in r2)
      else response)"

subsection \<open>Configuration documents\<close>

text \<open>
  A configuration is the JSON document returned by \<^verbatim>\<open>get_config(year)\<close>. JSON values
  are the datatype \<open>json\<close>; a JSON object is an association list in the document's
  order, which is also the iteration order of the Python dict.
\<close>

datatype json = JNull | JBool bool | JNum int | JStr string | JArr "json list"
  | JObj "(string \<times> json) list"

text \<open>
  A chapter of the outline is a dict: the source asks whether it has the key
  \<^verbatim>\<open>todo\<close>, reads its \<^verbatim>\<open>slug\<close> with \<^verbatim>\<open>get\<close>, and tests its truth value, so
  it stays a dict here. A part is read at \<^verbatim>\<open>part['chapters']\<close> only, the
  configuration at \<^verbatim>\<open>config['outline']\<close> and \<^verbatim>\<open>config['contributors']\<close> only: they
  are records with these fields, and the \<^verbatim>\<open>KeyError\<close> of a document without them is
  excluded by the types. The contributors entry refers to a dict object of its own
  (see the object store below), so the field holds its address.
\<close>

type_synonym chapter_obj = "(string \<times> json) list"

record part =
  chapters :: "chapter_obj list"

type_synonym addr = nat

record config =
  outline :: "part list"
  cfg_contributors :: addr

text \<open>\<^verbatim>\<open>k in d\<close> and \<^verbatim>\<open>d.get(k)\<close> (\<^verbatim>\<open>None\<close>, here \<open>JNull\<close>, for a missing key).\<close>

definition has_key :: "string \<Rightarrow> (string \<times> 'v) list \<Rightarrow> bool" where
  "has_key k d = (map_of d k \<noteq> None)"

definition dict_get :: "(string \<times> json) list \<Rightarrow> string \<Rightarrow> json" where
  "dict_get d k = (case map_of d k of None \<Rightarrow> JNull | Some v \<Rightarrow> v)"

text \<open>
  The truth value of \<^verbatim>\<open>next_chapter\<close> in \<^verbatim>\<open>if found and next_chapter\<close>:
  \<^verbatim>\<open>None\<close> is false, and a dict is true exactly when it is not empty.
\<close>

definition truthy :: "chapter_obj option \<Rightarrow> bool" where
  "truthy c = (case c of None \<Rightarrow> False | Some d \<Rightarrow> d \<noteq> [])"

subsection \<open>Previous and next chapter: \<^verbatim>\<open>get_chapter_nextprev\<close>\<close>

text \<open>
  \<^verbatim>\<open>
  prev_chapter = None; next_chapter = None; found = False
  for part in config['outline']:
      for chapter in part['chapters']:
          if found and 'todo' not in chapter:
              next_chapter = chapter
              break
          elif chapter.get('slug') == chapter_slug and 'todo' not in chapter:
              found = True
          elif 'todo' not in chapter:
              prev_chapter = chapter
      if found and next_chapter:
          break
  return prev_chapter, next_chapter
  \<close>
  The three local variables are the loop state. \<open>chapters_loop\<close> is the inner loop
  over one part: its \<^verbatim>\<open>break\<close> is the branch that returns without a recursive call.
  \<open>outline_loop\<close> is the outer loop, which stops on the test after the inner loop.
  \<^verbatim>\<open>chapter_slug\<close> is a string (a segment of the URL), so the comparison with
  \<^verbatim>\<open>chapter.get('slug')\<close> holds exactly when the value is that JSON string.
\<close>

type_synonym nav_state = "chapter_obj option \<times> chapter_obj option \<times> bool"

fun chapters_loop :: "string \<Rightarrow> chapter_obj list \<Rightarrow> nav_state \<Rightarrow> nav_state" where
  "chapters_loop chapter_slug [] st = st"
| "chapters_loop chapter_slug (chapter # rest) (prev_chapter, next_chapter, found) =
     (if found \<and> \<not> has_key ''todo'' chapter then (prev_chapter, Some chapter, found)
      else if dict_get chapter ''slug'' = JStr chapter_slug \<and> \<not> has_key ''todo'' chapter
        then chapters_loop chapter_slug rest (prev_chapter, next_chapter, True)
      else if \<not> has_key ''todo'' chapter
        then chapters_loop chapter_slug rest (Some chapter, next_chapter, found)
      else chapters_loop chapter_slug rest (prev_chapter, next_chapter, found))"

fun outline_loop :: "string \<Rightarrow> part list \<Rightarrow> nav_state \<Rightarrow> nav_state" where
  "outline_loop chapter_slug [] st = st"
| "outline_loop chapter_slug (part # rest) st =
     (case chapters_loop chapter_slug (chapters part) st of
        (prev_chapter, next_chapter, found) \<Rightarrow>
          if found \<and> truthy next_chapter then (prev_chapter, next_chapter, found)
          else outline_loop chapter_slug rest (prev_chapter, next_chapter, found))"

definition get_chapter_nextprev ::
    "config \<Rightarrow> string \<Rightarrow> chapter_obj option \<times> chapter_obj option" where
  "get_chapter_nextprev config chapter_slug =
     (case outline_loop chapter_slug (outline config) (None, None, False) of
        (prev_chapter, next_chapter, found) \<Rightarrow> (prev_chapter, next_chapter))"

text \<open>
  The vocabulary of the properties: the outline flattened across its parts, a chapter
  that is not marked todo, a non-todo chapter whose slug is the target, and the data
  model's requirement that a chapter carries a slug, which is a string.
\<close>

definition flattened :: "config \<Rightarrow> chapter_obj list" where
  "flattened config = concat (map chapters (outline config))"

definition navigable :: "chapter_obj \<Rightarrow> bool" where
  "navigable c = (\<not> has_key ''todo'' c)"

definition is_target :: "string \<Rightarrow> chapter_obj \<Rightarrow> bool" where
  "is_target s c = (dict_get c ''slug'' = JStr s \<and> navigable c)"

definition has_slug :: "chapter_obj \<Rightarrow> bool" where
  "has_slug c = (case map_of c ''slug'' of Some (JStr s) \<Rightarrow> True | _ \<Rightarrow> False)"

subsection \<open>Requests, view results and exceptions\<close>

text \<open>
  Of Flask's request object the views read \<^verbatim>\<open>request.path\<close> and
  \<^verbatim>\<open>request.base_url\<close> (the URL of the request without its query string, so its last
  character is the last character of the path). A view returns the call it makes on its
  last line: \<^verbatim>\<open>render_template(name, config=config)\<close>, with the address of the
  configuration object when one is passed,
  \<^verbatim>\<open>render_error_template(error=e, status_code=n)\<close>, or a redirect to a location
  together with the status code it is sent with. The helpers that render are not part
  of this module; their calls are kept as data.
\<close>

record request =
  path :: string
  base_url :: string

datatype exn = HTTPException int | IndexError

datatype view =
    RenderTemplate string "addr option"
  | RenderErrorTemplate exn int
  | Redirect string int

subsection \<open>Error handlers\<close>

text \<open>
  \<^verbatim>\<open>logging.exception(msg, request.path)\<close> appends one record to the log, whose text
  is \<^verbatim>\<open>msg\<close> with the path put in place of \<^verbatim>\<open>%s\<close> at its end. The log is
  passed in and returned. \<open>errorhandler\<close> is the table that the decorators
  \<^verbatim>\<open>@app.errorhandler(n)\<close> fill, and \<open>handle_error\<close> is Flask looking a status up in
  it and calling what it finds.
\<close>

datatype log_record = LogException string

definition bad_request ::
    "exn \<Rightarrow> request \<Rightarrow> log_record list \<Rightarrow> log_record list \<times> view" where
  "bad_request e request logged =
     (logged @ [LogException
        (''An error occurred during a request due to bad request error: '' @ path request)],
      RenderErrorTemplate e 400)"

definition page_not_found ::
    "exn \<Rightarrow> request \<Rightarrow> log_record list \<Rightarrow> log_record list \<times> view" where
  "page_not_found e request logged = (logged, RenderErrorTemplate e 404)"

definition handle_internal_server_error ::
    "exn \<Rightarrow> request \<Rightarrow> log_record list \<Rightarrow> log_record list \<times> view" where
  "handle_internal_server_error e request logged =
     (logged @ [LogException
        (''An error occurred during a request due to internal server error: '' @ path request)],
      RenderErrorTemplate e 500)"

definition handle_bad_gateway ::
    "exn \<Rightarrow> request \<Rightarrow> log_record list \<Rightarrow> log_record list \<times> view" where
  "handle_bad_gateway e request logged =
     (logged @ [LogException
        (''An error occurred during a request due to bad gateway: '' @ path request)],
      RenderErrorTemplate e 502)"

definition errorhandler ::
    "int \<Rightarrow> (exn \<Rightarrow> request \<Rightarrow> log_record list \<Rightarrow> log_record list \<times> view) option" where
  "errorhandler code =
     (if code = 400 then Some bad_request
      else if code = 404 then Some page_not_found
      else if code = 500 then Some handle_internal_server_error
      else if code = 502 then Some handle_bad_gateway
      else None)"

definition handle_error ::
    "int \<Rightarrow> exn \<Rightarrow> request \<Rightarrow> log_record list \<Rightarrow> (log_record list \<times> view) option" where
  "handle_error code e request logged =
     (case errorhandler code of
        None \<Rightarrow> None
      | Some handler \<Rightarrow> Some (handler e request logged))"

subsection \<open>The accessibility statement\<close>

text \<open>
  \<^verbatim>\<open>
  @app.route('/<lang>/accessibility-statement', strict_slashes=False)
  @validate
  def accessibility_statement(lang):
      if request.base_url[-1] == "/":
          return redirect("/%s/accessibility-statement" % (lang)), 301
      else:
          return render_template('%s/2019/accessibility_statement.html' % (lang))
  \<close>
  Indexing an empty string with \<^verbatim>\<open>[-1]\<close> raises \<^verbatim>\<open>IndexError\<close>. The pair
  \<^verbatim>\<open>(redirect(...), 301)\<close> makes Flask send the redirect with status 301. The
  decorator \<^verbatim>\<open>validate\<close> belongs to another module, which is not among the
  sources: the function below is the body of the view, as the decorator calls it.
\<close>

definition accessibility_statement :: "string \<Rightarrow> request \<Rightarrow> exn + view" where
  "accessibility_statement lang request =
     (if base_url request = [] then Inl IndexError
      else if last (base_url request) = CHR ''/''
        then Inr (Redirect (''/'' @ lang @ ''/accessibility-statement'') 301)
      else Inr (RenderTemplate (lang @ ''/2019/accessibility_statement.html'') None))"

subsection \<open>Redirect of the old image URLs\<close>

text \<open>
  \<^verbatim>\<open>
  @app.route('/static/images/2019/<regex("[0-2][0-9]_.*"):folder>/<image>')
  def redirect_old_images(folder, image):
      return redirect("/static/images/2019/%s/%s"
                      % (convert_old_image_path(folder), image)), 301
  \<close>
  \<^verbatim>\<open>convert_old_image_path\<close> is a helper of another module and is a parameter here.
  \<open>old_image_folder\<close> is the regular expression of the route: a character from 0 to
  2, a digit, an underscore and any characters but a newline. \<open>url_segment\<close> is
  the routing library's default for \<^verbatim>\<open><image>\<close>: a non-empty string without a
  slash. \<open>route_old_images\<close> is the route: the view is called for the requests the
  pattern accepts; \<open>None\<close> says that the route does not apply, and the request is
  left to the other routes.
\<close>

definition old_image_folder :: "string \<Rightarrow> bool" where
  "old_image_folder folder =
     (case folder of
        a # b # c # rest \<Rightarrow>
          a \<in> set ''012'' \<and> b \<in> set ''0123456789'' \<and> c = CHR ''_'' \<and>
          CHR 0x0A \<notin> set rest
      | _ \<Rightarrow> False)"

definition url_segment :: "string \<Rightarrow> bool" where
  "url_segment s = (s \<noteq> [] \<and> CHR ''/'' \<notin> set s)"

definition redirect_old_images :: "(string \<Rightarrow> string) \<Rightarrow> string \<Rightarrow> string \<Rightarrow> view" where
  "redirect_old_images convert_old_image_path folder img =
     Redirect (''/static/images/2019/'' @ convert_old_image_path folder @ ''/'' @ img) 301"

definition route_old_images ::
    "(string \<Rightarrow> string) \<Rightarrow> string \<Rightarrow> string \<Rightarrow> view option" where
  "route_old_images convert_old_image_path folder img =
     (if old_image_folder folder \<and> url_segment img
      then Some (redirect_old_images convert_old_image_path folder img)
      else None)"

text \<open>
  The folder pattern in the spec's words (4.4), for comparison with the route's: a
  two-digit numeric prefix, an underscore and a descriptive suffix.
\<close>

definition legacy_folder_spec :: "string \<Rightarrow> bool" where
  "legacy_folder_spec folder =
     (case folder of
        a # b # c # rest \<Rightarrow>
          a \<in> set ''0123456789'' \<and> b \<in> set ''0123456789'' \<and> c = CHR ''_'' \<and>
          rest \<noteq> []
      | _ \<Rightarrow> False)"

subsection \<open>The object store, and the contributors and ebook views\<close>

text \<open>
  Python passes objects by reference, and the two views assign to an entry of the
  configuration object they were given, so objects live in an explicit store. A
  configuration object holds the address of its contributors mapping; the mapping is
  an association list in iteration order, with distinct keys. A contributor is read at
  \<^verbatim>\<open>['name']\<close> only: it is a record with that field, its other entries kept in
  \<open>details\<close>, and the \<^verbatim>\<open>KeyError\<close> of a contributor without a name is excluded by
  the type. \<open>next_addr\<close> is the first address not in use.
\<close>

record contributor =
  name :: string
  details :: "(string \<times> json) list"

type_synonym contributors_dict = "(string \<times> contributor) list"

record store =
  configs :: "addr \<Rightarrow> config option"
  dicts :: "addr \<Rightarrow> contributors_dict option"
  next_addr :: addr

text \<open>
  \<^verbatim>\<open>d[k] = v\<close> keeps the place of a key that is present and appends a new one;
  \<^verbatim>\<open>dict(pairs)\<close> assigns the pairs in turn to an empty dict;
  \<^verbatim>\<open>list(d.items())\<close> is a new list of the pairs in iteration order.
\<close>

fun dict_set :: "('k \<times> 'v) list \<Rightarrow> 'k \<Rightarrow> 'v \<Rightarrow> ('k \<times> 'v) list" where
  "dict_set [] k v = [(k, v)]"
| "dict_set ((k', v') # d) k v = (if k' = k then (k', v) # d else (k', v') # dict_set d k v)"

definition dict_of_items :: "('k \<times> 'v) list \<Rightarrow> ('k \<times> 'v) list" where
  "dict_of_items kvs = fold (\<lambda>(k, v) d. dict_set d k v) kvs []"

definition dict_items :: "('k \<times> 'v) list \<Rightarrow> ('k \<times> 'v) list" where
  "dict_items d = d"

text \<open>A new mapping object is put at the first free address.\<close>

definition new_dict :: "contributors_dict \<Rightarrow> store \<Rightarrow> addr \<times> store" where
  "new_dict d s =
     (next_addr s, s\<lparr>dicts := (dicts s)(next_addr s \<mapsto> d), next_addr := Suc (next_addr s)\<rparr>)"

text \<open>
  \<^verbatim>\<open>random.shuffle(x)\<close> of the standard library:
  \<^verbatim>\<open>
  for i in reversed(range(1, len(x))):
      j = randbelow(i + 1)
      x[i], x[j] = x[j], x[i]
  \<close>
  The generator is a parameter: \<open>randbelow n\<close> is the number drawn below \<open>n\<close>,
  reduced modulo \<open>n\<close> as the library's draw lies in the range.
\<close>

definition shuffle :: "(nat \<Rightarrow> nat) \<Rightarrow> 'a list \<Rightarrow> 'a list" where
  "shuffle randbelow x =
     fold (\<lambda>i x. let j = randbelow (i + 1) mod (i + 1) in x[i := x ! j, j := x ! i])
       (rev [1..<length x]) x"

text \<open>
  \<^verbatim>\<open>
  config = get_config(year)
  contributors_list = list(config["contributors"].items())
  random.shuffle(contributors_list)
  config["contributors"] = dict(contributors_list)
  return render_template('%s/%s/contributors.html' % (lang, year), config=config)
  \<close>
  \<^verbatim>\<open>get_config\<close> belongs to the module \<^verbatim>\<open>config\<close>, which is not among the
  sources: it is a parameter, giving the address of the configuration object it
  returns. The result \<open>None\<close> stands for an address with no object behind it, which
  a Python reference never is.
\<close>

definition contributors ::
    "(nat \<Rightarrow> nat) \<Rightarrow> (string \<Rightarrow> addr) \<Rightarrow> string \<Rightarrow> string \<Rightarrow> store \<Rightarrow> (store \<times> view) option" where
  "contributors randbelow get_config lang year s =
     (let config = get_config year in
      case configs s config of
        None \<Rightarrow> None
      | Some cfg \<Rightarrow>
         (case dicts s (cfg_contributors cfg) of
            None \<Rightarrow> None
          | Some d \<Rightarrow>
              let contributors_list = shuffle randbelow (dict_items d);
                  (a, s1) = new_dict (dict_of_items contributors_list) s;
                  s2 = s1\<lparr>configs := (configs s1)(config \<mapsto> cfg\<lparr>cfg_contributors := a\<rparr>)\<rparr>
              in Some (s2, RenderTemplate (lang @ ''/'' @ year @ ''/contributors.html'')
                             (Some config))))"

text \<open>
  \<^verbatim>\<open>
  config = get_config(year)
  sorted_contributors = sorted(config["contributors"].items(),
                               key=lambda items: items[1]['name'])
  config["contributors"] = dict(sorted_contributors)
  return render_template('%s/%s/ebook.html' % (lang, year), config=config)
  \<close>
  \<^verbatim>\<open>sorted\<close> is a stable sort, as \<open>sort_key\<close> is; strings are ordered
  lexicographically by character code.
\<close>

definition ebook ::
    "(string \<Rightarrow> addr) \<Rightarrow> string \<Rightarrow> string \<Rightarrow> store \<Rightarrow> (store \<times> view) option" where
  "ebook get_config lang year s =
     (let config = get_config year in
      case configs s config of
        None \<Rightarrow> None
      | Some cfg \<Rightarrow>
         (case dicts s (cfg_contributors cfg) of
            None \<Rightarrow> None
          | Some d \<Rightarrow>
              let sorted_contributors = sort_key (\<lambda>items. name (snd items)) (dict_items d);
                  (a, s1) = new_dict (dict_of_items sorted_contributors) s;
                  s2 = s1\<lparr>configs := (configs s1)(config \<mapsto> cfg\<lparr>cfg_contributors := a\<rparr>)\<rparr>
              in Some (s2, RenderTemplate (lang @ ''/'' @ year @ ''/ebook.html'')
                             (Some config))))"

text \<open>
  \<^verbatim>\<open>config["contributors"]\<close> as a reader of the configuration object sees it.
\<close>

definition contributors_of :: "store \<Rightarrow> addr \<Rightarrow> contributors_dict option" where
  "contributors_of s config =
     (case configs s config of None \<Rightarrow> None | Some cfg \<Rightarrow> dicts s (cfg_contributors cfg))"

text \<open>The loop invariant: neither candidate held in the state is marked todo.\<close>

definition nav_ok :: "nav_state \<Rightarrow> bool" where
  "nav_ok st = (case st of (p, n, f) \<Rightarrow>
     (case p of None \<Rightarrow> True | Some c \<Rightarrow> navigable c) \<and>
     (case n of None \<Rightarrow> True | Some c \<Rightarrow> navigable c))"

section \<open>Properties\<close>

subsection \<open>Cache policy\<close>

text \<open>
  C5. A response that already carries a Cache-Control header is returned as it is.
  Otherwise a response with status 200 or 304 gets exactly the directives
  \<^verbatim>\<open>public, max-age=10800\<close>, and a response with any other status gets exactly
  \<^verbatim>\<open>no-store, no-cache, max-age=0\<close>; status and the other headers are not touched.
\<close>

theorem add_header_policy:
  "(cache_control_header r \<noteq> None \<longrightarrow> add_header r = r) \<and>
   (cache_control_header r = None \<and> (status_code r = 200 \<or> status_code r = 304) \<longrightarrow>
      add_header r =
        r\<lparr>cache_control_header :=
            Some \<lparr>no_store = False, no_cache = False, max_age = Some 10800,
                  public = True, other_directives = []\<rparr>\<rparr>) \<and>
   (cache_control_header r = None \<and> status_code r \<noteq> 200 \<and> status_code r \<noteq> 304 \<longrightarrow>
      add_header r =
        r\<lparr>cache_control_header :=
            Some \<lparr>no_store = True, no_cache = True, max_age = Some 0,
                  public = False, other_directives = []\<rparr>\<rparr>)"
  by (auto simp: add_header_def set_cache_control_def empty_cache_control_def Let_def)

theorem add_header_policy_witness:
  "add_header \<lparr>status_code = 200, headers = [], cache_control_header =
       Some \<lparr>no_store = False, no_cache = False, max_age = None, public = False,
             other_directives = [''private'']\<rparr>\<rparr>
     = \<lparr>status_code = 200, headers = [], cache_control_header =
       Some \<lparr>no_store = False, no_cache = False, max_age = None, public = False,
             other_directives = [''private'']\<rparr>\<rparr> \<and>
   cache_control_header
     (add_header \<lparr>status_code = 304, headers = [], cache_control_header = None\<rparr>)
     = Some \<lparr>no_store = False, no_cache = False, max_age = Some 10800,
             public = True, other_directives = []\<rparr> \<and>
   cache_control_header
     (add_header \<lparr>status_code = 404, headers = [], cache_control_header = None\<rparr>)
     = Some \<lparr>no_store = True, no_cache = True, max_age = Some 0,
             public = False, other_directives = []\<rparr>"
  using
    add_header_policy [of "\<lparr>status_code = 200, headers = [], cache_control_header =
       Some \<lparr>no_store = False, no_cache = False, max_age = None, public = False,
             other_directives = [''private'']\<rparr>\<rparr>"]
    add_header_policy [of "\<lparr>status_code = 304, headers = [], cache_control_header = None\<rparr>"]
    add_header_policy [of "\<lparr>status_code = 404, headers = [], cache_control_header = None\<rparr>"]
  by simp

text \<open>
  C6. Running the hook on its own result changes nothing: after the first run the
  response carries a Cache-Control header, which the second run leaves alone.
\<close>

theorem add_header_idempotent: "add_header (add_header r) = add_header r"
  by (simp add: add_header_def set_cache_control_def Let_def)

subsection \<open>Outline navigation\<close>

lemma find_app:
  "find P (xs @ ys) = (case find P xs of None \<Rightarrow> find P ys | Some x \<Rightarrow> Some x)"
  by (induction xs) auto

text \<open>Before the target is met, the inner loop only moves \<open>prev_chapter\<close> along.\<close>

lemma chapters_loop_unmatched:
  "\<forall>c \<in> set cs. \<not> is_target s c \<Longrightarrow>
   chapters_loop s cs (p, n, False) =
     (case find navigable (rev cs) of None \<Rightarrow> p | Some c \<Rightarrow> Some c, n, False)"
  by (induction cs arbitrary: p)
     (auto simp: is_target_def navigable_def find_app split: option.splits)

text \<open>Once the target is met, the inner loop stops at the first non-todo chapter.\<close>

lemma chapters_loop_found:
  "chapters_loop s cs (p, None, True) = (p, find navigable cs, True)"
  by (induction cs) (auto simp: navigable_def)

lemma chapters_loop_append:
  "chapters_loop s (cs @ ds) (p, None, f) =
     (case chapters_loop s cs (p, None, f) of
        (p', None, f') \<Rightarrow> chapters_loop s ds (p', None, f')
      | (p', Some c, f') \<Rightarrow> (p', Some c, f'))"
  by (induction cs arbitrary: p f) auto

lemma chapters_loop_next:
  "chapters_loop s cs (p, None, f) = (p', Some c, f') \<Longrightarrow> f' \<and> c \<in> set cs"
  by (induction cs arbitrary: p f) (auto split: if_splits)

text \<open>
  When no chapter is an empty dict, the test after the inner loop succeeds exactly when
  the inner loop has left through its \<^verbatim>\<open>break\<close>, and the two nested loops are one
  scan of the flattened outline.
\<close>

lemma outline_loop_flat:
  "\<forall>c \<in> set (concat (map chapters ps)). c \<noteq> [] \<Longrightarrow>
   outline_loop s ps (p, None, f) = chapters_loop s (concat (map chapters ps)) (p, None, f)"
proof (induction ps arbitrary: p f)
  case Nil
  then show ?case by simp
next
  case (Cons a ps)
  obtain p' n' f' where st: "chapters_loop s (chapters a) (p, None, f) = (p', n', f')"
    by (cases "chapters_loop s (chapters a) (p, None, f)") auto
  show ?case
  proof (cases n')
    case None
    with st Cons show ?thesis
      by (simp add: chapters_loop_append truthy_def)
  next
    case (Some c)
    with st have "f'" and "c \<in> set (chapters a)"
      using chapters_loop_next by blast+
    with Cons.prems have "c \<noteq> []" by auto
    with st Some \<open>f'\<close> show ?thesis
      by (simp add: chapters_loop_append truthy_def)
  qed
qed

lemma has_slug_nonempty: "has_slug c \<Longrightarrow> c \<noteq> []"
  by (auto simp: has_slug_def)

lemma nextprev_general:
  assumes "flattened config = pre @ c # post" and "is_target s c"
    and "\<forall>d \<in> set pre. \<not> is_target s d"
    and "\<forall>d \<in> set (flattened config). d \<noteq> []"
  shows "get_chapter_nextprev config s = (find navigable (rev pre), find navigable post)"
proof -
  have "outline_loop s (outline config) (None, None, False)
      = chapters_loop s (pre @ c # post) (None, None, False)"
    using assms(1,4) outline_loop_flat [of "outline config" s None False]
    by (simp add: flattened_def)
  also have "\<dots> = chapters_loop s (c # post) (find navigable (rev pre), None, False)"
    using chapters_loop_unmatched [OF assms(3), of None None]
    by (simp add: chapters_loop_append split: option.splits)
  also have "\<dots> = (find navigable (rev pre), find navigable post, True)"
    using assms(2) by (simp add: is_target_def navigable_def chapters_loop_found)
  finally show ?thesis by (simp add: get_chapter_nextprev_def)
qed

text \<open>
  C2. Let the chapters of the outline carry a slug, as the data model says. Let the
  flattened outline be \<open>pre @ C # post\<close>, where \<open>C\<close> is the non-todo chapter that the
  target slug names (no non-todo chapter before it has that slug), let \<open>P\<close> be the last
  non-todo chapter of \<open>pre\<close> and \<open>N\<close> the first non-todo chapter of \<open>post\<close>. Then the
  function returns \<open>P\<close> and \<open>N\<close>. Chapters marked todo may stand anywhere in \<open>pre\<close> and
  \<open>post\<close>, also between \<open>P\<close>, \<open>C\<close> and \<open>N\<close> and at the border of two parts: they are
  passed over and the scan goes on.
\<close>

theorem get_chapter_nextprev_neighbours:
  assumes "flattened config = pre @ C # post"
    and "\<forall>d \<in> set (flattened config). has_slug d"
    and "dict_get C ''slug'' = JStr s" and "\<not> has_key ''todo'' C"
    and "\<forall>d \<in> set pre. \<not> is_target s d"
    and "find navigable (rev pre) = Some P"
    and "find navigable post = Some N"
  shows "get_chapter_nextprev config s = (Some P, Some N)"
proof -
  from assms(3,4) have target: "is_target s C"
    by (simp add: is_target_def navigable_def)
  from assms(2) have nonempty: "\<forall>d \<in> set (flattened config). d \<noteq> []"
    using has_slug_nonempty by blast
  have "get_chapter_nextprev config s
      = (find navigable (rev pre), find navigable post)"
    by (rule nextprev_general [OF assms(1) target assms(5) nonempty])
  with assms(6,7) show ?thesis by simp
qed

theorem get_chapter_nextprev_neighbours_witness:
  "get_chapter_nextprev
     \<lparr>outline =
        [\<lparr>chapters = [[(''slug'', JStr ''a'')],
                      [(''slug'', JStr ''b''), (''todo'', JBool True)]]\<rparr>,
         \<lparr>chapters = [[(''slug'', JStr ''c'')]]\<rparr>,
         \<lparr>chapters = [[(''slug'', JStr ''d''), (''todo'', JBool True)],
                      [(''slug'', JStr ''e'')]]\<rparr>],
      cfg_contributors = 0\<rparr> ''c''
   = (Some [(''slug'', JStr ''a'')], Some [(''slug'', JStr ''e'')])"
  by (rule get_chapter_nextprev_neighbours
        [where pre = "[[(''slug'', JStr ''a'')],
                       [(''slug'', JStr ''b''), (''todo'', JBool True)]]"
           and C = "[(''slug'', JStr ''c'')]"
           and post = "[[(''slug'', JStr ''d''), (''todo'', JBool True)],
                        [(''slug'', JStr ''e'')]]"])
     (simp_all add: flattened_def has_slug_def dict_get_def has_key_def is_target_def
        navigable_def)

text \<open>The invariant is kept by both loops.\<close>

lemma chapters_loop_ok: "nav_ok st \<Longrightarrow> nav_ok (chapters_loop s cs st)"
  by (induction s cs st rule: chapters_loop.induct) (auto simp: nav_ok_def navigable_def)

lemma outline_loop_ok: "nav_ok st \<Longrightarrow> nav_ok (outline_loop s ps st)"
proof (induction ps arbitrary: st)
  case Nil
  then show ?case by simp
next
  case (Cons a ps)
  from Cons.prems have ok: "nav_ok (chapters_loop s (chapters a) st)"
    by (rule chapters_loop_ok)
  obtain p' n' f' where st: "chapters_loop s (chapters a) st = (p', n', f')"
    by (cases "chapters_loop s (chapters a) st") auto
  with ok Cons.IH [of "(p', n', f')"] show ?case by auto
qed

text \<open>
  C3. Whatever the outline and the target slug, a chapter returned as previous or as
  next does not have the key \<^verbatim>\<open>todo\<close>.
\<close>

theorem get_chapter_nextprev_never_todo:
  assumes "get_chapter_nextprev config s = (p, n)" and "p = Some c \<or> n = Some c"
  shows "\<not> has_key ''todo'' c"
proof -
  have "nav_ok (outline_loop s (outline config) (None, None, False))"
    by (rule outline_loop_ok) (simp add: nav_ok_def)
  with assms show ?thesis
    by (auto simp: get_chapter_nextprev_def nav_ok_def navigable_def split: prod.splits)
qed

theorem get_chapter_nextprev_never_todo_witness:
  "get_chapter_nextprev
     \<lparr>outline =
        [\<lparr>chapters = [[(''slug'', JStr ''a'')],
                      [(''slug'', JStr ''b''), (''todo'', JBool True)],
                      [(''slug'', JStr ''c'')]]\<rparr>],
      cfg_contributors = 0\<rparr> ''a''
     = (None, Some [(''slug'', JStr ''c'')]) \<and>
   \<not> has_key ''todo'' [(''slug'', JStr ''c'')]"
proof -
  have r: "get_chapter_nextprev
     \<lparr>outline =
        [\<lparr>chapters = [[(''slug'', JStr ''a'')],
                      [(''slug'', JStr ''b''), (''todo'', JBool True)],
                      [(''slug'', JStr ''c'')]]\<rparr>],
      cfg_contributors = 0\<rparr> ''a''
     = (None, Some [(''slug'', JStr ''c'')])"
    by (simp add: get_chapter_nextprev_def dict_get_def has_key_def truthy_def)
  from get_chapter_nextprev_never_todo [OF r, of "[(''slug'', JStr ''c'')]"] r
  show ?thesis by simp
qed

text \<open>While the target is not met, the outer loop never stops early.\<close>

lemma outline_loop_unmatched:
  "\<forall>c \<in> set (concat (map chapters ps)). \<not> is_target s c \<Longrightarrow>
   outline_loop s ps (p, n, False) =
     (case find navigable (rev (concat (map chapters ps))) of
        None \<Rightarrow> p | Some c \<Rightarrow> Some c, n, False)"
proof (induction ps arbitrary: p)
  case Nil
  then show ?case by simp
next
  case (Cons a ps)
  then show ?case
    by (simp add: chapters_loop_unmatched find_app split: option.splits)
qed

text \<open>
  C4. When no non-todo chapter of the outline has the target slug, next is none and
  previous is the last non-todo chapter of the whole flattened outline, none when there
  is no such chapter.
\<close>

theorem get_chapter_nextprev_unmatched:
  assumes "\<forall>c \<in> set (flattened config). \<not> is_target s c"
  shows "get_chapter_nextprev config s = (find navigable (rev (flattened config)), None)"
  using outline_loop_unmatched [of "outline config" s None None] assms
  by (simp add: get_chapter_nextprev_def flattened_def split: option.splits)

theorem get_chapter_nextprev_unmatched_witness:
  "get_chapter_nextprev
     \<lparr>outline =
        [\<lparr>chapters = [[(''slug'', JStr ''a'')]]\<rparr>,
         \<lparr>chapters = [[(''slug'', JStr ''b'')],
                      [(''slug'', JStr ''x''), (''todo'', JBool True)]]\<rparr>],
      cfg_contributors = 0\<rparr> ''x''
   = (Some [(''slug'', JStr ''b'')], None)"
  using get_chapter_nextprev_unmatched
    [of "\<lparr>outline =
        [\<lparr>chapters = [[(''slug'', JStr ''a'')]]\<rparr>,
         \<lparr>chapters = [[(''slug'', JStr ''b'')],
                      [(''slug'', JStr ''x''), (''todo'', JBool True)]]\<rparr>],
      cfg_contributors = 0\<rparr>" "''x''"]
  by (simp add: flattened_def is_target_def navigable_def dict_get_def has_key_def)

subsection \<open>Error pages\<close>

text \<open>
  C9. For each of the statuses 400, 404, 500 and 502 a handler is registered, and it
  answers with the error template for the error it was given and that same status. The
  handlers of 400, 500 and 502 add one record to the log, whose text ends with the path
  of the request; the handler of 404 leaves the log as it was.
\<close>

theorem error_pages:
  assumes "code \<in> {400, 404, 500, 502}"
  shows "\<exists>logged'.
           handle_error code e request logged = Some (logged', RenderErrorTemplate e code) \<and>
           (if code = 404 then logged' = logged
            else \<exists>msg. logged' = logged @ [LogException (msg @ path request)])"
  using assms
  by (auto simp: handle_error_def errorhandler_def bad_request_def page_not_found_def
        handle_internal_server_error_def handle_bad_gateway_def)

theorem error_pages_witness:
  "\<exists>logged'.
     handle_error 500 (HTTPException 500)
         \<lparr>path = ''/en/2019/css'', base_url = ''http://localhost/en/2019/css''\<rparr> []
       = Some (logged', RenderErrorTemplate (HTTPException 500) 500) \<and>
     (if (500::int) = 404 then logged' = []
      else \<exists>msg. logged' = [] @ [LogException (msg @
              path \<lparr>path = ''/en/2019/css'', base_url = ''http://localhost/en/2019/css''\<rparr>)])"
  using error_pages [of 500 "HTTPException 500"
      "\<lparr>path = ''/en/2019/css'', base_url = ''http://localhost/en/2019/css''\<rparr>" "[]"]
  by simp

subsection \<open>Trailing slash of the accessibility statement\<close>

text \<open>
  The body of the view answers a URL that ends with a slash with a redirect to
  \<^verbatim>\<open>/{lang}/accessibility-statement\<close>, sent with status 301, for whatever language
  it is called with: it makes no test of the language. What the decorator does before
  it calls the view is decided in its own module.
\<close>

lemma accessibility_statement_trailing_slash:
  assumes "base_url request \<noteq> []" and "last (base_url request) = CHR ''/''"
  shows "accessibility_statement lang request
           = Inr (Redirect (''/'' @ lang @ ''/accessibility-statement'') 301)"
  using assms by (simp add: accessibility_statement_def)

subsection \<open>Old image URLs\<close>

text \<open>
  C8, as the claim states it, fails: the route accepts a folder only when its first
  character is 0, 1 or 2. The folder \<^verbatim>\<open>37_chart\<close> has a two-digit numeric prefix, an
  underscore and a suffix, and the route does not apply to it, so
  \<^verbatim>\<open>redirect_old_images\<close> is not called and no redirect to a remapped folder is made.
\<close>

theorem redirect_old_images_counterexample:
  "legacy_folder_spec ''37_chart'' \<and>
   route_old_images id ''37_chart'' ''fig1.png'' = None"
  by (simp add: legacy_folder_spec_def route_old_images_def old_image_folder_def)

text \<open>
  C8, amended. For every request \<^verbatim>\<open>/static/images/2019/{folder}/{image}\<close> whose
  folder matches the pattern of the route (a first character from 0 to 2, a digit, an
  underscore, then any suffix without a newline) and whose image is one path segment,
  the answer is a redirect sent with status 301 to the same path with the folder
  replaced by what \<^verbatim>\<open>convert_old_image_path\<close> makes of it and the image name
  unchanged. For every folder whose first character is a digit from 3 to 9 the route
  does not apply, whatever follows the digit and whatever the image.
\<close>

theorem redirect_old_images_route:
  "(old_image_folder folder \<and> url_segment img \<longrightarrow>
      route_old_images convert_old_image_path folder img
        = Some (Redirect
            (''/static/images/2019/'' @ convert_old_image_path folder @ ''/'' @ img) 301)) \<and>
   (folder = a # rest \<and> a \<in> set ''3456789'' \<longrightarrow>
      route_old_images convert_old_image_path folder img = None)"
  by (auto simp: route_old_images_def redirect_old_images_def old_image_folder_def
        split: list.splits)

theorem redirect_old_images_route_witness:
  "route_old_images id ''07_chart'' ''fig1.png''
     = Some (Redirect ''/static/images/2019/07_chart/fig1.png'' 301) \<and>
   route_old_images id ''97_chart'' ''fig1.png'' = None"
  using
    redirect_old_images_route [of "''07_chart''" "''fig1.png''" id]
    redirect_old_images_route [of "''97_chart''" "''fig1.png''" id "CHR ''9''" "''7_chart''"]
  by (simp add: old_image_folder_def url_segment_def)

subsection \<open>Reordering of the contributors\<close>

lemma dict_set_fresh: "k \<notin> fst ` set d \<Longrightarrow> dict_set d k v = d @ [(k, v)]"
  by (induction d) auto

lemma fold_dict_set:
  "distinct (map fst kvs) \<Longrightarrow> fst ` set kvs \<inter> fst ` set acc = {} \<Longrightarrow>
   fold (\<lambda>(k, v) d. dict_set d k v) kvs acc = acc @ kvs"
proof (induction kvs arbitrary: acc)
  case Nil
  then show ?case by simp
next
  case (Cons kv kvs)
  obtain k v where kv: "kv = (k, v)" by (cases kv)
  from Cons.prems kv have fresh: "k \<notin> fst ` set acc" by auto
  have "fold (\<lambda>(k, v) d. dict_set d k v) kvs (acc @ [(k, v)]) = (acc @ [(k, v)]) @ kvs"
  proof (rule Cons.IH)
    show "distinct (map fst kvs)" using Cons.prems by simp
    show "fst ` set kvs \<inter> fst ` set (acc @ [(k, v)]) = {}"
      using Cons.prems kv by auto
  qed
  with fresh kv show ?case by (simp add: dict_set_fresh)
qed

lemma dict_of_items_distinct: "distinct (map fst kvs) \<Longrightarrow> dict_of_items kvs = kvs"
  using fold_dict_set [of kvs "[]"] by (simp add: dict_of_items_def)

lemma mset_fold_swap:
  "\<forall>i \<in> set is. i < length x \<Longrightarrow>
   mset (fold (\<lambda>i x. let j = r (i + 1) mod (i + 1) in x[i := x ! j, j := x ! i]) is x) = mset x"
proof (induction "is" arbitrary: x)
  case Nil
  then show ?case by simp
next
  case (Cons i "is")
  let ?j = "r (i + 1) mod (i + 1)"
  let ?y = "x[i := x ! ?j, ?j := x ! i]"
  from Cons.prems have i: "i < length x" by simp
  have "?j < i + 1" by (rule mod_less_divisor) simp
  with i have j: "?j < length x" by linarith
  have step: "mset ?y = mset x" using mset_swap [OF j i] by simp
  have "\<forall>k \<in> set is. k < length ?y" using Cons.prems by simp
  then have "mset (fold (\<lambda>i x. let j = r (i + 1) mod (i + 1) in x[i := x ! j, j := x ! i]) is ?y)
      = mset ?y" by (rule Cons.IH)
  with step show ?case by (simp add: Let_def)
qed

lemma mset_shuffle: "mset (shuffle r x) = mset x"
  unfolding shuffle_def by (rule mset_fold_swap) simp

lemma distinct_keys_mset:
  "mset ys = mset xs \<Longrightarrow> distinct (map fst xs) \<Longrightarrow> distinct (map fst ys)"
proof -
  assume eq: "mset ys = mset xs" and d: "distinct (map fst xs)"
  from eq have "mset (map fst ys) = mset (map fst xs)" by (metis mset_map)
  with d show ?thesis by (metis mset_eq_imp_distinct_iff)
qed

lemma map_of_mset:
  "mset ys = mset xs \<Longrightarrow> distinct (map fst xs) \<Longrightarrow> map_of ys = map_of xs"
proof -
  assume eq: "mset ys = mset xs" and d: "distinct (map fst xs)"
  then have d': "distinct (map fst ys)" by (rule distinct_keys_mset)
  from eq have "set ys = set xs" by (metis set_mset_mset)
  with d d' show ?thesis by (metis map_of_inject_set)
qed

lemma contributors_result:
  assumes "configs s (get_config year) = Some cfg" and "dicts s (cfg_contributors cfg) = Some d"
  shows "contributors randbelow get_config lang year s =
     Some (s\<lparr>dicts := (dicts s)(next_addr s \<mapsto> dict_of_items (shuffle randbelow d)),
             next_addr := Suc (next_addr s),
             configs := (configs s)(get_config year \<mapsto> cfg\<lparr>cfg_contributors := next_addr s\<rparr>)\<rparr>,
           RenderTemplate (lang @ ''/'' @ year @ ''/contributors.html'') (Some (get_config year)))"
  using assms by (simp add: contributors_def new_dict_def dict_items_def Let_def)

lemma ebook_result:
  assumes "configs s (get_config year) = Some cfg" and "dicts s (cfg_contributors cfg) = Some d"
  shows "ebook get_config lang year s =
     Some (s\<lparr>dicts := (dicts s)(next_addr s \<mapsto>
                 dict_of_items (sort_key (\<lambda>items. name (snd items)) d)),
             next_addr := Suc (next_addr s),
             configs := (configs s)(get_config year \<mapsto> cfg\<lparr>cfg_contributors := next_addr s\<rparr>)\<rparr>,
           RenderTemplate (lang @ ''/'' @ year @ ''/ebook.html'') (Some (get_config year)))"
  using assms by (simp add: ebook_def new_dict_def dict_items_def Let_def)

lemma contributors_of_updated:
  "contributors_of
     (s\<lparr>dicts := (dicts s)(a \<mapsto> d'), next_addr := n,
        configs := (configs s)(c \<mapsto> cfg\<lparr>cfg_contributors := a\<rparr>)\<rparr>) c = Some d'"
  by (simp add: contributors_of_def)

text \<open>
  C10. Let the configuration refer to a contributors mapping \<open>d\<close> (a dict: its keys are
  distinct). After the contributors view, for any random draws, and after the ebook
  view, the mapping that the configuration refers to has the same pairs of contributor
  id and record as \<open>d\<close>, each as often (once), and looks every id up to the same record:
  nothing is added, removed or altered, only the order may differ.
\<close>

theorem reorder_is_permutation:
  assumes "contributors_of s (get_config year) = Some d" and "distinct (map fst d)"
  shows "(\<exists>s' v d'. contributors randbelow get_config lang year s = Some (s', v) \<and>
            contributors_of s' (get_config year) = Some d' \<and>
            mset d' = mset d \<and> map_of d' = map_of d) \<and>
         (\<exists>s' v d'. ebook get_config lang year s = Some (s', v) \<and>
            contributors_of s' (get_config year) = Some d' \<and>
            mset d' = mset d \<and> map_of d' = map_of d)"
proof -
  from assms(1) obtain cfg where cfg: "configs s (get_config year) = Some cfg"
    and d: "dicts s (cfg_contributors cfg) = Some d"
    by (auto simp: contributors_of_def split: option.splits)
  define sh where "sh = shuffle randbelow d"
  define so where "so = sort_key (\<lambda>items. name (snd items)) d"
  have sh: "mset sh = mset d" unfolding sh_def by (rule mset_shuffle)
  have so: "mset so = mset d" unfolding so_def by simp
  have dsh: "dict_of_items sh = sh"
    by (rule dict_of_items_distinct) (rule distinct_keys_mset [OF sh assms(2)])
  have dso: "dict_of_items so = so"
    by (rule dict_of_items_distinct) (rule distinct_keys_mset [OF so assms(2)])
  have msh: "map_of sh = map_of d" using sh assms(2) by (rule map_of_mset)
  have mso: "map_of so = map_of d" using so assms(2) by (rule map_of_mset)
  have 1: "\<exists>s' v d'. contributors randbelow get_config lang year s = Some (s', v) \<and>
            contributors_of s' (get_config year) = Some d' \<and>
            mset d' = mset d \<and> map_of d' = map_of d"
    apply (subst contributors_result [where get_config = get_config and year = year, OF cfg d])
    apply (intro exI conjI)
       apply (rule refl)
      apply (rule contributors_of_updated)
     apply (simp only: dsh sh sh_def [symmetric])
    apply (simp only: dsh msh sh_def [symmetric])
    done
  have 2: "\<exists>s' v d'. ebook get_config lang year s = Some (s', v) \<and>
            contributors_of s' (get_config year) = Some d' \<and>
            mset d' = mset d \<and> map_of d' = map_of d"
    apply (subst ebook_result [where get_config = get_config and year = year, OF cfg d])
    apply (intro exI conjI)
       apply (rule refl)
      apply (rule contributors_of_updated)
     apply (simp only: dso so so_def [symmetric])
    apply (simp only: dso mso so_def [symmetric])
    done
  from 1 2 show ?thesis by (rule conjI)
qed

theorem reorder_is_permutation_witness:
  "(\<exists>s' v d'. contributors (\<lambda>n. 0) (\<lambda>year. 0) ''en'' ''2019''
        \<lparr>configs = [0 \<mapsto> \<lparr>outline = [], cfg_contributors = 1\<rparr>],
         dicts = [1 \<mapsto> [(''b'', \<lparr>name = ''Bob'', details = []\<rparr>),
                          (''a'', \<lparr>name = ''Alice'', details = []\<rparr>)]],
         next_addr = 2\<rparr> = Some (s', v) \<and>
      contributors_of s' 0 = Some d' \<and>
      mset d' = mset [(''b'', \<lparr>name = ''Bob'', details = []\<rparr>),
                      (''a'', \<lparr>name = ''Alice'', details = []\<rparr>)] \<and>
      map_of d' = map_of [(''b'', \<lparr>name = ''Bob'', details = []\<rparr>),
                          (''a'', \<lparr>name = ''Alice'', details = []\<rparr>)]) \<and>
   (\<exists>s' v d'. ebook (\<lambda>year. 0) ''en'' ''2019''
        \<lparr>configs = [0 \<mapsto> \<lparr>outline = [], cfg_contributors = 1\<rparr>],
         dicts = [1 \<mapsto> [(''b'', \<lparr>name = ''Bob'', details = []\<rparr>),
                          (''a'', \<lparr>name = ''Alice'', details = []\<rparr>)]],
         next_addr = 2\<rparr> = Some (s', v) \<and>
      contributors_of s' 0 = Some d' \<and>
      mset d' = mset [(''b'', \<lparr>name = ''Bob'', details = []\<rparr>),
                      (''a'', \<lparr>name = ''Alice'', details = []\<rparr>)] \<and>
      map_of d' = map_of [(''b'', \<lparr>name = ''Bob'', details = []\<rparr>),
                          (''a'', \<lparr>name = ''Alice'', details = []\<rparr>)])"
proof -
  have c: "contributors_of
        \<lparr>configs = [0 \<mapsto> \<lparr>outline = [], cfg_contributors = 1\<rparr>],
         dicts = [1 \<mapsto> [(''b'', \<lparr>name = ''Bob'', details = []\<rparr>),
                          (''a'', \<lparr>name = ''Alice'', details = []\<rparr>)]],
         next_addr = 2\<rparr> ((\<lambda>year. 0) ''2019'')
      = Some [(''b'', \<lparr>name = ''Bob'', details = []\<rparr>),
              (''a'', \<lparr>name = ''Alice'', details = []\<rparr>)]"
    by (simp add: contributors_of_def)
  have k: "distinct (map fst [(''b'', \<lparr>name = ''Bob'', details = []\<rparr>),
                             (''a'', \<lparr>name = ''Alice'', details = []\<rparr>)])"
    by simp
  from reorder_is_permutation
    [where get_config = "\<lambda>year. 0" and year = "''2019''" and randbelow = "\<lambda>n. 0"
       and lang = "''en''", OF c k]
  show ?thesis by simp
qed

text \<open>
  C1, as the claim states it, fails: both views assign the reordered mapping to
  \<^verbatim>\<open>config["contributors"]\<close>, and \<^verbatim>\<open>config\<close> is the object the loader returned.
  For a configuration whose contributors are Bob and Alice in this order, the object is
  not the same after either view (here the shuffle draws 0), and a reader of it sees
  Alice before Bob.
\<close>

theorem config_unchanged_counterexample:
  "(case ebook (\<lambda>year. 0) ''en'' ''2019''
      \<lparr>configs = [0 \<mapsto> \<lparr>outline = [], cfg_contributors = 1\<rparr>],
       dicts = [1 \<mapsto> [(''b'', \<lparr>name = ''Bob'', details = []\<rparr>),
                        (''a'', \<lparr>name = ''Alice'', details = []\<rparr>)]],
       next_addr = 2\<rparr> of
      None \<Rightarrow> False
    | Some (s', v) \<Rightarrow>
        configs s' 0 \<noteq> configs
      \<lparr>configs = [0 \<mapsto> \<lparr>outline = [], cfg_contributors = 1\<rparr>],
       dicts = [1 \<mapsto> [(''b'', \<lparr>name = ''Bob'', details = []\<rparr>),
                        (''a'', \<lparr>name = ''Alice'', details = []\<rparr>)]],
       next_addr = 2\<rparr> 0 \<and>
        contributors_of s' 0 \<noteq> contributors_of
      \<lparr>configs = [0 \<mapsto> \<lparr>outline = [], cfg_contributors = 1\<rparr>],
       dicts = [1 \<mapsto> [(''b'', \<lparr>name = ''Bob'', details = []\<rparr>),
                        (''a'', \<lparr>name = ''Alice'', details = []\<rparr>)]],
       next_addr = 2\<rparr> 0 \<and>
        contributors_of s' 0 = Some [(''a'', \<lparr>name = ''Alice'', details = []\<rparr>),
                                     (''b'', \<lparr>name = ''Bob'', details = []\<rparr>)]) \<and>
   (case contributors (\<lambda>n. 0) (\<lambda>year. 0) ''en'' ''2019''
      \<lparr>configs = [0 \<mapsto> \<lparr>outline = [], cfg_contributors = 1\<rparr>],
       dicts = [1 \<mapsto> [(''b'', \<lparr>name = ''Bob'', details = []\<rparr>),
                        (''a'', \<lparr>name = ''Alice'', details = []\<rparr>)]],
       next_addr = 2\<rparr> of
      None \<Rightarrow> False
    | Some (s', v) \<Rightarrow>
        configs s' 0 \<noteq> configs
      \<lparr>configs = [0 \<mapsto> \<lparr>outline = [], cfg_contributors = 1\<rparr>],
       dicts = [1 \<mapsto> [(''b'', \<lparr>name = ''Bob'', details = []\<rparr>),
                        (''a'', \<lparr>name = ''Alice'', details = []\<rparr>)]],
       next_addr = 2\<rparr> 0 \<and>
        contributors_of s' 0 \<noteq> contributors_of
      \<lparr>configs = [0 \<mapsto> \<lparr>outline = [], cfg_contributors = 1\<rparr>],
       dicts = [1 \<mapsto> [(''b'', \<lparr>name = ''Bob'', details = []\<rparr>),
                        (''a'', \<lparr>name = ''Alice'', details = []\<rparr>)]],
       next_addr = 2\<rparr> 0 \<and>
        contributors_of s' 0 = Some [(''a'', \<lparr>name = ''Alice'', details = []\<rparr>),
                                     (''b'', \<lparr>name = ''Bob'', details = []\<rparr>)])"
  by (simp add: ebook_def contributors_def new_dict_def dict_items_def dict_of_items_def
        shuffle_def upt_rec contributors_of_def)

text \<open>
  C1, amended. The views reorder a copy: the list of items and the mapping made from it
  are new objects, and the mapping that the configuration referred to is left as it
  was, as is every mapping object that was in the store. But the new mapping is then
  stored into the configuration object that the loader returned, under
  \<^verbatim>\<open>contributors\<close>: after the view that object refers to the reordered mapping, its
  outline is unchanged, and no other configuration object is touched.
\<close>

theorem reorder_stores_copy:
  assumes "configs s (get_config year) = Some cfg"
    and "dicts s (cfg_contributors cfg) = Some d"
    and "cfg_contributors cfg < next_addr s"
  shows "(\<exists>s'. contributors randbelow get_config lang year s
              = Some (s', RenderTemplate (lang @ ''/'' @ year @ ''/contributors.html'')
                            (Some (get_config year))) \<and>
            dicts s' (cfg_contributors cfg) = Some d \<and>
            (\<forall>a < next_addr s. dicts s' a = dicts s a) \<and>
            dicts s' (next_addr s) = Some (dict_of_items (shuffle randbelow d)) \<and>
            configs s' = (configs s)(get_config year \<mapsto> cfg\<lparr>cfg_contributors := next_addr s\<rparr>)) \<and>
         (\<exists>s'. ebook get_config lang year s
              = Some (s', RenderTemplate (lang @ ''/'' @ year @ ''/ebook.html'')
                            (Some (get_config year))) \<and>
            dicts s' (cfg_contributors cfg) = Some d \<and>
            (\<forall>a < next_addr s. dicts s' a = dicts s a) \<and>
            dicts s' (next_addr s)
              = Some (dict_of_items (sort_key (\<lambda>items. name (snd items)) d)) \<and>
            configs s' = (configs s)(get_config year \<mapsto> cfg\<lparr>cfg_contributors := next_addr s\<rparr>))"
proof (rule conjI)
  show "\<exists>s'. contributors randbelow get_config lang year s
              = Some (s', RenderTemplate (lang @ ''/'' @ year @ ''/contributors.html'')
                            (Some (get_config year))) \<and>
            dicts s' (cfg_contributors cfg) = Some d \<and>
            (\<forall>a < next_addr s. dicts s' a = dicts s a) \<and>
            dicts s' (next_addr s) = Some (dict_of_items (shuffle randbelow d)) \<and>
            configs s' = (configs s)(get_config year \<mapsto> cfg\<lparr>cfg_contributors := next_addr s\<rparr>)"
    apply (subst contributors_result [where get_config = get_config and year = year, OF assms(1,2)])
    apply (rule exI)
    apply (rule conjI, rule refl)
    using assms(2,3) apply simp
    done
next
  show "\<exists>s'. ebook get_config lang year s
              = Some (s', RenderTemplate (lang @ ''/'' @ year @ ''/ebook.html'')
                            (Some (get_config year))) \<and>
            dicts s' (cfg_contributors cfg) = Some d \<and>
            (\<forall>a < next_addr s. dicts s' a = dicts s a) \<and>
            dicts s' (next_addr s)
              = Some (dict_of_items (sort_key (\<lambda>items. name (snd items)) d)) \<and>
            configs s' = (configs s)(get_config year \<mapsto> cfg\<lparr>cfg_contributors := next_addr s\<rparr>)"
    apply (subst ebook_result [where get_config = get_config and year = year, OF assms(1,2)])
    apply (rule exI)
    apply (rule conjI, rule refl)
    using assms(2,3) apply simp
    done
qed

theorem reorder_stores_copy_witness:
  "(\<exists>s'. contributors (\<lambda>n. 0) (\<lambda>year. 0) ''en'' ''2019''
        \<lparr>configs = [0 \<mapsto> \<lparr>outline = [], cfg_contributors = 1\<rparr>],
         dicts = [1 \<mapsto> [(''b'', \<lparr>name = ''Bob'', details = []\<rparr>),
                          (''a'', \<lparr>name = ''Alice'', details = []\<rparr>)]],
         next_addr = 2\<rparr>
       = Some (s', RenderTemplate ''en/2019/contributors.html'' (Some 0)) \<and>
      dicts s' 1 = Some [(''b'', \<lparr>name = ''Bob'', details = []\<rparr>),
                         (''a'', \<lparr>name = ''Alice'', details = []\<rparr>)] \<and>
      configs s' 0 = Some \<lparr>outline = [], cfg_contributors = 2\<rparr>) \<and>
   (\<exists>s'. ebook (\<lambda>year. 0) ''en'' ''2019''
        \<lparr>configs = [0 \<mapsto> \<lparr>outline = [], cfg_contributors = 1\<rparr>],
         dicts = [1 \<mapsto> [(''b'', \<lparr>name = ''Bob'', details = []\<rparr>),
                          (''a'', \<lparr>name = ''Alice'', details = []\<rparr>)]],
         next_addr = 2\<rparr>
       = Some (s', RenderTemplate ''en/2019/ebook.html'' (Some 0)) \<and>
      dicts s' 1 = Some [(''b'', \<lparr>name = ''Bob'', details = []\<rparr>),
                         (''a'', \<lparr>name = ''Alice'', details = []\<rparr>)] \<and>
      configs s' 0 = Some \<lparr>outline = [], cfg_contributors = 2\<rparr>)"
proof -
  let ?s = "\<lparr>configs = [0 \<mapsto> \<lparr>outline = [], cfg_contributors = 1\<rparr>],
         dicts = [1 \<mapsto> [(''b'', \<lparr>name = ''Bob'', details = []\<rparr>),
                          (''a'', \<lparr>name = ''Alice'', details = []\<rparr>)]],
         next_addr = 2\<rparr>"
  have a: "configs ?s ((\<lambda>year. 0) ''2019'') = Some \<lparr>outline = [], cfg_contributors = 1\<rparr>"
    by simp
  have b: "dicts ?s (cfg_contributors \<lparr>outline = [], cfg_contributors = 1\<rparr>)
      = Some [(''b'', \<lparr>name = ''Bob'', details = []\<rparr>),
              (''a'', \<lparr>name = ''Alice'', details = []\<rparr>)]"
    by simp
  have c: "cfg_contributors \<lparr>outline = [], cfg_contributors = 1\<rparr> < next_addr ?s"
    by simp
  from reorder_stores_copy
    [where get_config = "\<lambda>year. 0" and year = "''2019''" and randbelow = "\<lambda>n. 0"
       and lang = "''en''", OF a b c]
  show ?thesis by auto
qed

end
